theory Spec2Isabelle
  imports Main "HOL-Library.Word"
begin

section \<open>Haswell platform clocks (src/platform/haswell/clk.c)\<close>

text \<open>
  A shallow embedding of \<^verbatim>\<open>clk.c\<close>. C's \<^verbatim>\<open>uint32_t\<close> and \<^verbatim>\<open>uint64_t\<close> are
  \<open>32 word\<close> and \<open>64 word\<close>; arrays are lists; the static pointer \<^verbatim>\<open>clk_pdata\<close> is an
  \<open>option\<close> (\<open>None\<close> is the null pointer it holds before \<^verbatim>\<open>init_platform_clocks\<close>).
  Behaviour that C leaves undefined (a null dereference, an index outside an array, a
  division by zero) is an \<open>error\<close> value. Calls to the external collaborators (the lock,
  the notifier, the register update) are recorded, in program order, in a trace.
\<close>

type_synonym u32 = "32 word"
type_synonym u64 = "64 word"

datatype error = Null_pointer | Out_of_bounds | Division_by_zero

subsection \<open>Data\<close>

definition NUM_CLOCKS :: nat where
  "NUM_CLOCKS = 2"

text \<open>
  \<^verbatim>\<open>struct clk_data\<close>. The third field, \<^verbatim>\<open>spinlock_t lock\<close>, belongs to the lock
  primitive of \<^verbatim>\<open>sof/lock.h\<close>; what the code does with it is recorded as trace events.
\<close>

record clk_data =
  freq :: u32
  ticks_per_usec :: u32

record clk_pdata =
  clk :: "clk_data list"

record freq_table =
  freq :: u32
  ticks_per_usec :: u32
  fabric :: u32
  enc :: u32

text \<open>
  \<^verbatim>\<open>struct clock_notify_data\<close> is declared in \<^verbatim>\<open>sof/clock.h\<close>; these are the three fields
  \<^verbatim>\<open>clock_set_freq\<close> assigns.
\<close>

record clock_notify_data =
  old_freq :: u32
  old_ticks_per_usec :: u32
  freq :: u32

text \<open>
  Modelled from the spec: \<^verbatim>\<open>platform/clk.h\<close>, which defines the clock identifiers, is
  not among the sources. The spec enumerates the domains as (CPU, SSP), and
  \<^verbatim>\<open>struct clk_pdata\<close> has \<^verbatim>\<open>NUM_CLOCKS = 2\<close> slots indexed by them, so \<^verbatim>\<open>CLK_CPU\<close> is
  the first index.
\<close>

definition CLK_CPU :: int where
  "CLK_CPU = 0"

text \<open>
  Modelled from the spec: \<^verbatim>\<open>CLK_SSP\<close>, of the same missing header, is the second domain
  of the enumeration and so the second index.
\<close>

definition CLK_SSP :: int where
  "CLK_SSP = 1"

text \<open>The tables, entry by entry as in the source (the source heads \<^verbatim>\<open>cpu_freq\<close> with
  the comment \<^verbatim>\<open>/* increasing frequency order */\<close>).\<close>

definition cpu_freq :: "freq_table list" where
  "cpu_freq =
    [\<lparr>freq_table.freq = 32000000, ticks_per_usec = 80, fabric = 32000000, enc = 0x6\<rparr>,
     \<lparr>freq_table.freq = 80000000, ticks_per_usec = 80, fabric = 80000000, enc = 0x2\<rparr>,
     \<lparr>freq_table.freq = 160000000, ticks_per_usec = 160, fabric = 80000000, enc = 0x1\<rparr>,
     \<lparr>freq_table.freq = 320000000, ticks_per_usec = 320, fabric = 160000000, enc = 0x4\<rparr>,
     \<lparr>freq_table.freq = 320000000, ticks_per_usec = 320, fabric = 80000000, enc = 0x0\<rparr>,
     \<lparr>freq_table.freq = 160000000, ticks_per_usec = 160, fabric = 160000000, enc = 0x5\<rparr>]"

definition ssp_freq :: "freq_table list" where
  "ssp_freq =
    [\<lparr>freq_table.freq = 24000000, ticks_per_usec = 24, fabric = 0, enc = 0\<rparr>]"

definition CPU_DEFAULT_IDX :: nat where
  "CPU_DEFAULT_IDX = 3"

definition SSP_DEFAULT_IDX :: nat where
  "SSP_DEFAULT_IDX = 0"

text \<open>\<^verbatim>\<open>ARRAY_SIZE(x)\<close>: the number of elements of an array, passed on as a C \<^verbatim>\<open>int\<close>.\<close>

definition ARRAY_SIZE :: "'a list \<Rightarrow> int" where
  "ARRAY_SIZE xs = int (length xs)"

text \<open>\<^verbatim>\<open>ULONG_LONG_MAX\<close> of \<^verbatim>\<open>limits.h\<close>: the largest \<^verbatim>\<open>unsigned long long\<close>, \<open>2^64 - 1\<close>.\<close>

definition ULONG_LONG_MAX :: u64 where
  "ULONG_LONG_MAX = 0xFFFFFFFFFFFFFFFF"

subsection \<open>The frequency selector\<close>

text \<open>
  \<^verbatim>\<open>get_freq(table, size, hz)\<close>. The counter \<^verbatim>\<open>i\<close> is a \<^verbatim>\<open>uint32_t\<close>; in \<^verbatim>\<open>i < size\<close> the
  \<^verbatim>\<open>int size\<close> is converted to unsigned, and the final \<^verbatim>\<open>size - 1\<close> is converted to the
  \<^verbatim>\<open>uint32_t\<close> result. Reading \<^verbatim>\<open>table[i]\<close> past the end of the array is \<open>Out_of_bounds\<close>.
\<close>

function get_freq_loop :: "freq_table list \<Rightarrow> int \<Rightarrow> u32 \<Rightarrow> u32 \<Rightarrow> error + u32" where
  "get_freq_loop table sz hz i =
     (if i < word_of_int sz then
        (if unat i < length table then
           (if hz \<le> freq_table.freq (table ! unat i) then Inr i
            else get_freq_loop table sz hz (i + 1))
         else Inl Out_of_bounds)
      else Inr (word_of_int (sz - 1)))"
  by pat_completeness auto
termination
  by (relation "measure (\<lambda>(table, sz, hz, i). unat (word_of_int sz :: u32) - unat i)")
     (simp_all add: diff_less_mono2 interval_class.inc_less_eq_imp_less unat_mono)

declare get_freq_loop.simps [simp del]

definition get_freq :: "freq_table list \<Rightarrow> int \<Rightarrow> u32 \<Rightarrow> error + u32" where
  "get_freq table sz hz = get_freq_loop table sz hz 0"

text \<open>Reading \<^verbatim>\<open>table[idx]\<close> with an unsigned index.\<close>

definition table_at :: "freq_table list \<Rightarrow> u32 \<Rightarrow> error + freq_table" where
  "table_at table idx =
     (if unat idx < length table then Inr (table ! unat idx) else Inl Out_of_bounds)"

subsection \<open>State and external calls\<close>

datatype notifier_id = NOTIFIER_ID_CPU_FREQ

datatype notify_phase = CLOCK_NOTIFY_PRE | CLOCK_NOTIFY_POST

text \<open>
  One constructor per external call of the source. \<open>Io_reg_update_bits_SHIM_CSR_DCS e\<close>
  stands for \<^verbatim>\<open>io_reg_update_bits(SHIM_BASE + SHIM_CSR, SHIM_CSR_DCS_MASK, SHIM_CSR_DCS(e))\<close>;
  the macros of \<^verbatim>\<open>platform/shim.h\<close> are kept symbolic. The lock events carry the index of
  the clock whose lock is taken. The notifier is taken to deliver the payload without
  changing it.
\<close>

datatype event =
    Spinlock_init nat
  | Spin_lock_irq int
  | Spin_unlock_irq int
  | Notifier_event notifier_id notify_phase clock_notify_data
  | Io_reg_update_bits_SHIM_CSR_DCS u32

record sys =
  clk_pdata :: "clk_pdata option"
  trace :: "event list"

definition emit :: "event \<Rightarrow> sys \<Rightarrow> sys" where
  "emit e s = s\<lparr>trace := trace s @ [e]\<rparr>"

text \<open>Reading \<^verbatim>\<open>clk_pdata->clk[clock]\<close> with a C \<^verbatim>\<open>int\<close> index.\<close>

definition clk_at :: "sys \<Rightarrow> int \<Rightarrow> error + clk_data" where
  "clk_at s clock =
     (case clk_pdata s of
        None \<Rightarrow> Inl Null_pointer
      | Some p \<Rightarrow>
          if 0 \<le> clock \<and> nat clock < length (clk p) then Inr (clk p ! nat clock)
          else Inl Out_of_bounds)"

text \<open>The state before \<^verbatim>\<open>init_platform_clocks\<close>: the static pointer is null.\<close>

definition boot :: sys where
  "boot = \<lparr>clk_pdata = None, trace = []\<rparr>"

subsection \<open>Operations\<close>

text \<open>
  \<^verbatim>\<open>init_platform_clocks\<close>: \<^verbatim>\<open>rzalloc\<close> hands out a zeroed \<^verbatim>\<open>struct clk_pdata\<close> (the
  allocator is taken to succeed), the two locks are initialised and the defaults are
  stored.
\<close>

definition set_clk :: "int \<Rightarrow> u32 \<Rightarrow> u32 \<Rightarrow> clk_pdata \<Rightarrow> clk_pdata" where
  "set_clk clock f t p =
     p\<lparr>clk := (clk p)[nat clock := \<lparr>clk_data.freq = f, ticks_per_usec = t\<rparr>]\<rparr>"

definition init_platform_clocks :: "sys \<Rightarrow> sys" where
  "init_platform_clocks s =
     (let p0 = \<lparr>clk = replicate NUM_CLOCKS \<lparr>clk_data.freq = 0, ticks_per_usec = 0\<rparr>\<rparr>;
          s1 = emit (Spinlock_init 1) (emit (Spinlock_init 0) s);
          p1 = set_clk CLK_CPU (freq_table.freq (cpu_freq ! CPU_DEFAULT_IDX))
                 (freq_table.ticks_per_usec (cpu_freq ! CPU_DEFAULT_IDX)) p0;
          p2 = set_clk CLK_SSP (freq_table.freq (ssp_freq ! SSP_DEFAULT_IDX))
                 (freq_table.ticks_per_usec (ssp_freq ! SSP_DEFAULT_IDX)) p1
      in s1\<lparr>clk_pdata := Some p2\<rparr>)"

text \<open>
  \<^verbatim>\<open>clock_set_freq\<close>. The old values are read first, the lock is taken, the switch has
  one branch with a body (\<^verbatim>\<open>CLK_CPU\<close>; \<^verbatim>\<open>CLK_SSP\<close> and \<^verbatim>\<open>default\<close> only break), the lock is
  released and the stored frequency is read again for the result.
\<close>

definition set_cpu_freq :: "clk_data \<Rightarrow> u32 \<Rightarrow> sys \<Rightarrow> error + sys" where
  "set_cpu_freq old hz s =
     (case get_freq cpu_freq (ARRAY_SIZE cpu_freq) hz of
        Inl e \<Rightarrow> Inl e
      | Inr idx \<Rightarrow>
          (case table_at cpu_freq idx of
             Inl e \<Rightarrow> Inl e
           | Inr ent \<Rightarrow>
               let notify_data =
                     \<lparr>old_freq = clk_data.freq old,
                      old_ticks_per_usec = clk_data.ticks_per_usec old,
                      freq = freq_table.freq ent\<rparr>;
                   s1 = emit (Notifier_event NOTIFIER_ID_CPU_FREQ CLOCK_NOTIFY_PRE notify_data) s;
                   s2 = emit (Io_reg_update_bits_SHIM_CSR_DCS (enc ent)) s1;
                   s3 = emit (Notifier_event NOTIFIER_ID_CPU_FREQ CLOCK_NOTIFY_POST notify_data) s2
               in Inr s3))"

definition clock_set_freq :: "int \<Rightarrow> u32 \<Rightarrow> sys \<Rightarrow> error + (u32 \<times> sys)" where
  "clock_set_freq clock hz s =
     (case clk_at s clock of
        Inl e \<Rightarrow> Inl e
      | Inr old \<Rightarrow>
          (case (if clock = CLK_CPU then set_cpu_freq old hz (emit (Spin_lock_irq clock) s)
                 else Inr (emit (Spin_lock_irq clock) s)) of
             Inl e \<Rightarrow> Inl e
           | Inr s1 \<Rightarrow>
               let s2 = emit (Spin_unlock_irq clock) s1 in
               (case clk_at s2 clock of
                  Inl e \<Rightarrow> Inl e
                | Inr c \<Rightarrow> Inr (clk_data.freq c, s2))))"

definition clock_get_freq :: "int \<Rightarrow> sys \<Rightarrow> error + u32" where
  "clock_get_freq clock s =
     (case clk_at s clock of Inl e \<Rightarrow> Inl e | Inr c \<Rightarrow> Inr (clk_data.freq c))"

text \<open>\<^verbatim>\<open>clock_us_to_ticks\<close>: the 32-bit factor is widened and the product wraps at 64 bits.\<close>

definition clock_us_to_ticks :: "int \<Rightarrow> u64 \<Rightarrow> sys \<Rightarrow> error + u64" where
  "clock_us_to_ticks clock us s =
     (case clk_at s clock of
        Inl e \<Rightarrow> Inl e
      | Inr c \<Rightarrow> Inr (ucast (clk_data.ticks_per_usec c) * us))"

text \<open>
  The two timer reads of \<^verbatim>\<open>clock_time_elapsed\<close> are inputs: \<open>arch_timer_get_system\<close> is
  the value \<^verbatim>\<open>arch_timer_get_system(NULL)\<close> returns and \<open>platform_timer_get\<close> the value
  \<^verbatim>\<open>platform_timer_get(platform_timer)\<close> returns.
\<close>

record timers =
  arch_timer_get_system :: u64
  platform_timer_get :: u64

text \<open>
  \<^verbatim>\<open>clock_time_elapsed\<close>. The first component of the result is what the call stored
  through \<^verbatim>\<open>current\<close> (\<open>None\<close>: nothing was stored); the store comes before the division,
  so it is there also when the division is undefined. The second component is the
  value returned.
\<close>

definition clock_time_elapsed :: "timers \<Rightarrow> int \<Rightarrow> u64 \<Rightarrow> sys \<Rightarrow> u64 option \<times> (error + u64)" where
  "clock_time_elapsed hw clock previous s =
     (if clock = CLK_CPU \<or> clock = CLK_SSP then
        let current = (if clock = CLK_CPU then arch_timer_get_system hw
                       else platform_timer_get hw)
        in (Some current,
            case clk_at s clock of
              Inl e \<Rightarrow> Inl e
            | Inr c \<Rightarrow>
                if clk_data.ticks_per_usec c = 0 then Inl Division_by_zero
                else if previous \<le> current then
                  Inr ((current - previous) div ucast (clk_data.ticks_per_usec c))
                else
                  Inr ((current + (ULONG_LONG_MAX - previous))
                         div ucast (clk_data.ticks_per_usec c)))
      else (None, Inr 0))"

subsection \<open>Predicates used in the statements\<close>

text \<open>Entry \<open>j\<close> of the table exists and its frequency is at least \<open>hz\<close>.\<close>

definition qualifies :: "freq_table list \<Rightarrow> u32 \<Rightarrow> nat \<Rightarrow> bool" where
  "qualifies table hz j \<longleftrightarrow> j < length table \<and> hz \<le> freq_table.freq (table ! j)"

text \<open>
  What the scan of \<^verbatim>\<open>get_freq\<close> started at index \<open>k\<close> yields: the first qualifying index
  from \<open>k\<close> on, or the last index of the table when there is none.
\<close>

definition scan_result :: "freq_table list \<Rightarrow> u32 \<Rightarrow> nat \<Rightarrow> u32 \<Rightarrow> bool" where
  "scan_result table hz k r \<longleftrightarrow>
     (if \<exists>j. k \<le> j \<and> qualifies table hz j
      then k \<le> unat r \<and> qualifies table hz (unat r)
           \<and> (\<forall>j. k \<le> j \<and> j < unat r \<longrightarrow> \<not> qualifies table hz j)
      else unat r = length table - 1)"

text \<open>
  The state \<^verbatim>\<open>init_platform_clocks\<close> establishes and every later call keeps: the block
  is allocated and has its \<^verbatim>\<open>NUM_CLOCKS\<close> slots.
\<close>

definition initialised :: "sys \<Rightarrow> bool" where
  "initialised s \<longleftrightarrow>
     (case clk_pdata s of None \<Rightarrow> False | Some p \<Rightarrow> length (clk p) = NUM_CLOCKS)"

text \<open>The clock domains of this platform.\<close>

definition known_clock :: "int \<Rightarrow> bool" where
  "known_clock clock \<longleftrightarrow> clock = CLK_CPU \<or> clock = CLK_SSP"

text \<open>
  The result the specification gives for \<^verbatim>\<open>set_frequency\<close>, in its words: the smallest
  table entry \<open>\<ge>\<close> the requested Hz, or the table maximum if the requested Hz exceeds
  all entries. It is not taken from the source; it is what the source is compared with.
\<close>

definition spec_nearest :: "u32 list \<Rightarrow> u32 \<Rightarrow> u32" where
  "spec_nearest fs hz =
     (case filter (\<lambda>f. hz \<le> f) fs of
        [] \<Rightarrow> fold max fs 0
      | g # gs \<Rightarrow> fold min gs g)"

section \<open>Properties\<close>

subsection \<open>Initialisation\<close>

lemma init_clk_pdata:
  "clk_pdata (init_platform_clocks s) =
     Some \<lparr>clk = [\<lparr>clk_data.freq = 320000000, ticks_per_usec = 320\<rparr>,
                  \<lparr>clk_data.freq = 24000000, ticks_per_usec = 24\<rparr>]\<rparr>"
  by (simp add: init_platform_clocks_def Let_def set_clk_def emit_def NUM_CLOCKS_def
      CLK_CPU_def CLK_SSP_def cpu_freq_def ssp_freq_def CPU_DEFAULT_IDX_def
      SSP_DEFAULT_IDX_def numeral_2_eq_2)

lemma init_boot:
  "init_platform_clocks boot =
     \<lparr>clk_pdata = Some \<lparr>clk = [\<lparr>clk_data.freq = 320000000, ticks_per_usec = 320\<rparr>,
                                \<lparr>clk_data.freq = 24000000, ticks_per_usec = 24\<rparr>]\<rparr>,
      trace = [Spinlock_init 0, Spinlock_init 1]\<rparr>"
  by (simp add: init_platform_clocks_def Let_def set_clk_def emit_def NUM_CLOCKS_def
      CLK_CPU_def CLK_SSP_def cpu_freq_def ssp_freq_def CPU_DEFAULT_IDX_def
      SSP_DEFAULT_IDX_def numeral_2_eq_2 boot_def)

lemma trace_init: "trace (init_platform_clocks s) = trace s @ [Spinlock_init 0, Spinlock_init 1]"
  by (simp add: init_platform_clocks_def Let_def emit_def)

lemma clk_at_init:
  "clk_at (init_platform_clocks s) CLK_CPU = Inr \<lparr>clk_data.freq = 320000000, ticks_per_usec = 320\<rparr>"
  "clk_at (init_platform_clocks s) CLK_SSP = Inr \<lparr>clk_data.freq = 24000000, ticks_per_usec = 24\<rparr>"
  by (simp_all add: clk_at_def init_clk_pdata CLK_CPU_def CLK_SSP_def)

text \<open>
  C5. After \<^verbatim>\<open>init_platform_clocks\<close>, from any earlier state, \<^verbatim>\<open>clock_get_freq\<close> returns
  each domain's default table frequency: 320000000, the entry at index 3 of \<^verbatim>\<open>cpu_freq\<close>,
  for \<^verbatim>\<open>CLK_CPU\<close>, and 24000000, the entry at index 0 of \<^verbatim>\<open>ssp_freq\<close>, for \<^verbatim>\<open>CLK_SSP\<close>.
\<close>

theorem init_then_get_freq_default:
  "clock_get_freq CLK_CPU (init_platform_clocks s) = Inr 320000000
   \<and> clock_get_freq CLK_SSP (init_platform_clocks s) = Inr 24000000
   \<and> freq_table.freq (cpu_freq ! CPU_DEFAULT_IDX) = 320000000 \<and> CPU_DEFAULT_IDX = 3
   \<and> freq_table.freq (ssp_freq ! SSP_DEFAULT_IDX) = 24000000 \<and> SSP_DEFAULT_IDX = 0"
  by (simp add: clock_get_freq_def clk_at_def init_clk_pdata CLK_CPU_def CLK_SSP_def
      cpu_freq_def ssp_freq_def CPU_DEFAULT_IDX_def SSP_DEFAULT_IDX_def)

subsection \<open>The frequency selector\<close>

lemma unat_word_succ: "(i::'a::len word) < w \<Longrightarrow> unat (i + 1) = Suc (unat i)"
proof -
  assume "i < w"
  then have "i \<noteq> - 1"
    using word_order.extremum_strict [of w] by auto
  then have "1 + i \<noteq> 0"
    using max_word_wrap [of i] by (auto simp: add.commute)
  then show ?thesis
    using unatSuc [of i] by (simp add: add.commute)
qed

lemma unat_size_word:
  "n < 2 ^ 31 \<Longrightarrow> unat (word_of_int (int n) :: u32) = n"
  by (simp add: unsigned_of_nat take_bit_nat_eq_self)

lemma scan_result_hit:
  "qualifies table hz (unat i) \<Longrightarrow> scan_result table hz (unat i) i"
  unfolding scan_result_def by auto

lemma scan_result_end:
  "length table \<le> k \<Longrightarrow> unat r = length table - 1 \<Longrightarrow> scan_result table hz k r"
  unfolding scan_result_def qualifies_def by auto

lemma scan_result_step:
  assumes miss: "\<not> qualifies table hz k" and r: "scan_result table hz (Suc k) r"
  shows "scan_result table hz k r"
proof -
  have ex_iff: "(\<exists>j. k \<le> j \<and> qualifies table hz j) \<longleftrightarrow> (\<exists>j. Suc k \<le> j \<and> qualifies table hz j)"
    using miss by (metis Suc_leI le_neq_implies_less Suc_leD)
  show ?thesis
  proof (cases "\<exists>j. Suc k \<le> j \<and> qualifies table hz j")
    case False
    then have nex: "\<not> (\<exists>j. k \<le> j \<and> qualifies table hz j)"
      using ex_iff by simp
    from r show ?thesis unfolding scan_result_def by (simp only: nex False if_False)
  next
    case True
    with r have a: "Suc k \<le> unat r" "qualifies table hz (unat r)"
      and b: "\<forall>j. Suc k \<le> j \<and> j < unat r \<longrightarrow> \<not> qualifies table hz j"
      unfolding scan_result_def by simp_all
    have "\<not> qualifies table hz j" if "k \<le> j \<and> j < unat r" for j
    proof (cases "j = k")
      case True with miss show ?thesis by simp
    next
      case False with that b show ?thesis by (simp add: Suc_leI)
    qed
    then have c: "\<forall>j. k \<le> j \<and> j < unat r \<longrightarrow> \<not> qualifies table hz j"
      by blast
    have ex: "\<exists>j. k \<le> j \<and> qualifies table hz j"
      using True ex_iff by simp
    have "k \<le> unat r"
      using a(1) by simp
    with a(2) c show ?thesis
      unfolding scan_result_def by (simp only: ex if_True simp_thms)
  qed
qed

lemma get_freq_loop_scan:
  "sz = int (length table) \<Longrightarrow> table \<noteq> [] \<Longrightarrow> length table < 2 ^ 31 \<Longrightarrow> unat i \<le> length table \<Longrightarrow>
    \<exists>r. get_freq_loop table sz hz i = Inr r \<and> scan_result table hz (unat i) r"
proof (induction table sz hz i rule: get_freq_loop.induct)
  case (1 table sz hz i)
  have W: "unat (word_of_int sz :: u32) = length table"
    using "1.prems"(1,3) unat_size_word [of "length table"] by simp
  show ?case
  proof (cases "i < word_of_int sz")
    case False
    then have full: "length table \<le> unat i"
      using W by (simp add: word_less_nat_alt)
    have eq: "sz - 1 = int (length table - 1)"
      using "1.prems"(1,2) by (cases table) simp_all
    have "length table - 1 < 2 ^ 31"
      using "1.prems"(3) by arith
    then have "unat (word_of_int (sz - 1) :: u32) = length table - 1"
      unfolding eq by (rule unat_size_word)
    then have "scan_result table hz (unat i) (word_of_int (sz - 1))"
      using full by (rule scan_result_end [rotated])
    moreover have "get_freq_loop table sz hz i = Inr (word_of_int (sz - 1))"
      using False by (subst get_freq_loop.simps) simp
    ultimately show ?thesis by simp
  next
    case True
    then have lt: "unat i < length table"
      using W by (simp add: word_less_nat_alt)
    show ?thesis
    proof (cases "hz \<le> freq_table.freq (table ! unat i)")
      case hit: True
      have "get_freq_loop table sz hz i = Inr i"
        using True lt hit by (subst get_freq_loop.simps) simp
      moreover have "scan_result table hz (unat i) i"
        using lt hit by (simp add: scan_result_hit qualifies_def)
      ultimately show ?thesis by simp
    next
      case miss: False
      have suc: "unat (i + 1) = Suc (unat i)"
        using True by (rule unat_word_succ)
      have "unat (i + 1) \<le> length table"
        using lt suc by simp
      from "1.IH" [OF True lt miss "1.prems"(1,2,3) this]
      obtain r where r: "get_freq_loop table sz hz (i + 1) = Inr r"
        and sel: "scan_result table hz (unat (i + 1)) r"
        by blast
      have "get_freq_loop table sz hz i = Inr r"
        using True lt miss r by (subst get_freq_loop.simps) simp
      moreover have "scan_result table hz (unat i) r"
      proof (rule scan_result_step)
        show "\<not> qualifies table hz (unat i)"
          using miss by (simp add: qualifies_def)
        show "scan_result table hz (Suc (unat i)) r"
          using sel by (simp only: suc)
      qed
      ultimately show ?thesis by simp
    qed
  qed
qed
lemma get_freq_scan:
  assumes "table \<noteq> []" and "length table < 2 ^ 31"
  shows "\<exists>r. get_freq table (ARRAY_SIZE table) hz = Inr r \<and> scan_result table hz 0 r"
  using get_freq_loop_scan [of "ARRAY_SIZE table" table 0 hz] assms
  by (simp add: get_freq_def ARRAY_SIZE_def)

lemma scan_result_in_range:
  "table \<noteq> [] \<Longrightarrow> scan_result table hz k r \<Longrightarrow> unat r < length table"
  unfolding scan_result_def qualifies_def
  by (cases "\<exists>j. k \<le> j \<and> j < length table \<and> hz \<le> freq_table.freq (table ! j)") simp_all

text \<open>
  C3. For every non-empty table, passed with its number of entries as
  \<^verbatim>\<open>size\<close> (which fits a C \<^verbatim>\<open>int\<close>), and every \<open>hz\<close>, \<^verbatim>\<open>get_freq\<close> returns an index of
  the table: the lowest index whose entry has a frequency \<open>\<ge> hz\<close> when some entry
  qualifies, and the last index when none does. When the table is sorted ascending by
  frequency, the entry selected has the lowest qualifying frequency and the last index
  holds the highest frequency of the table.
\<close>

theorem get_freq_lowest_or_last:
  assumes "table \<noteq> []" and "length table < 2 ^ 31"
  shows "\<exists>i. get_freq table (ARRAY_SIZE table) hz = Inr i \<and> unat i < length table \<and>
     ((\<exists>j<length table. hz \<le> freq_table.freq (table ! j)) \<longrightarrow>
        hz \<le> freq_table.freq (table ! unat i) \<and>
        (\<forall>j<unat i. freq_table.freq (table ! j) < hz)) \<and>
     ((\<forall>j<length table. freq_table.freq (table ! j) < hz) \<longrightarrow>
        unat i = length table - 1) \<and>
     (sorted (map freq_table.freq table) \<longrightarrow>
        (\<forall>j<length table. hz \<le> freq_table.freq (table ! j) \<longrightarrow>
            freq_table.freq (table ! unat i) \<le> freq_table.freq (table ! j)) \<and>
        (\<forall>j<length table. freq_table.freq (table ! j)
            \<le> freq_table.freq (table ! (length table - 1))))"
proof -
  from get_freq_scan [OF assms, of hz] obtain r
    where r: "get_freq table (ARRAY_SIZE table) hz = Inr r" and sc: "scan_result table hz 0 r"
    by blast
  have rng: "unat r < length table"
    using assms(1) sc by (rule scan_result_in_range)
  have sel: "if \<exists>j<length table. hz \<le> freq_table.freq (table ! j)
      then hz \<le> freq_table.freq (table ! unat r) \<and> (\<forall>j<unat r. freq_table.freq (table ! j) < hz)
      else unat r = length table - 1"
  proof (cases "\<exists>j<length table. hz \<le> freq_table.freq (table ! j)")
    case True
    then have ex: "\<exists>j. 0 \<le> j \<and> qualifies table hz j"
      by (auto simp: qualifies_def)
    from sc have "0 \<le> unat r \<and> qualifies table hz (unat r)
        \<and> (\<forall>j. 0 \<le> j \<and> j < unat r \<longrightarrow> \<not> qualifies table hz j)"
      unfolding scan_result_def using ex by (auto split: if_splits)
    then have "qualifies table hz (unat r)" and "\<forall>j<unat r. \<not> qualifies table hz j"
      by simp_all
    with rng True show ?thesis
      by (auto simp: qualifies_def not_le)
  next
    case False
    then have nex: "\<not> (\<exists>j. 0 \<le> j \<and> qualifies table hz j)"
      by (auto simp: qualifies_def)
    from sc have "unat r = length table - 1"
      unfolding scan_result_def using nex by (auto split: if_splits)
    with False show ?thesis by auto
  qed
  have low: "freq_table.freq (table ! unat r) \<le> freq_table.freq (table ! j)"
    if srt: "sorted (map freq_table.freq table)" and j: "j < length table" "hz \<le> freq_table.freq (table ! j)" for j
  proof -
    have ex: "\<exists>j<length table. hz \<le> freq_table.freq (table ! j)" using j by blast
    with sel have "\<forall>k<unat r. freq_table.freq (table ! k) < hz" by simp
    with j(2) have "unat r \<le> j" by (meson not_le leD)
    then show ?thesis
      using sorted_nth_mono [OF srt, of "unat r" j] j(1) rng by simp
  qed
  have top: "freq_table.freq (table ! j) \<le> freq_table.freq (table ! (length table - 1))"
    if srt: "sorted (map freq_table.freq table)" and j: "j < length table" for j
  proof -
    show ?thesis
      using sorted_nth_mono [OF srt, of j "length table - 1"] j by simp
  qed
  have hit: "(\<exists>j<length table. hz \<le> freq_table.freq (table ! j)) \<longrightarrow>
      hz \<le> freq_table.freq (table ! unat r) \<and> (\<forall>j<unat r. freq_table.freq (table ! j) < hz)"
    using sel by (auto split: if_splits)
  have none: "(\<forall>j<length table. freq_table.freq (table ! j) < hz) \<longrightarrow> unat r = length table - 1"
    using sel by (auto split: if_splits simp: not_le [symmetric])
  from r rng hit none low top show ?thesis by blast
qed

theorem get_freq_lowest_or_last_witness:
  "take 4 cpu_freq \<noteq> [] \<and> length (take 4 cpu_freq) < 2 ^ 31
   \<and> sorted (map freq_table.freq (take 4 cpu_freq))
   \<and> get_freq (take 4 cpu_freq) (ARRAY_SIZE (take 4 cpu_freq)) 100000000 = Inr 2
   \<and> freq_table.freq (take 4 cpu_freq ! 1) < 100000000
   \<and> freq_table.freq (take 4 cpu_freq ! 2) = 160000000
   \<and> freq_table.freq (take 4 cpu_freq ! 2) \<le> freq_table.freq (take 4 cpu_freq ! 3)"
proof -
  have h1: "take 4 cpu_freq \<noteq> []"
    by (simp add: cpu_freq_def)
  have h2: "length (take 4 cpu_freq) < 2 ^ 31"
    by (simp add: cpu_freq_def)
  from get_freq_lowest_or_last [OF h1 h2, of 100000000] h1 h2
  show ?thesis
    by (simp add: get_freq_def get_freq_loop.simps cpu_freq_def ARRAY_SIZE_def)
qed

text \<open>
  Without the ordering, the last index need not hold the highest frequency, and the
  table the code passes is such a table: no entry of \<^verbatim>\<open>cpu_freq\<close> reaches 400000000,
  \<^verbatim>\<open>get_freq\<close> returns the last index 5, and the entry there (160000000) is below the
  entry at index 3 (320000000).
\<close>

theorem get_freq_last_index_not_highest:
  "get_freq cpu_freq (ARRAY_SIZE cpu_freq) 400000000 = Inr 5
   \<and> map freq_table.freq cpu_freq
       = [32000000, 80000000, 160000000, 320000000, 320000000, 160000000]
   \<and> freq_table.freq (cpu_freq ! 5) < freq_table.freq (cpu_freq ! 3)"
  by (simp add: get_freq_def get_freq_loop.simps cpu_freq_def ARRAY_SIZE_def)

subsection \<open>The tables\<close>

text \<open>
  C2. Both tables are non-empty and \<^verbatim>\<open>ssp_freq\<close> is sorted, but \<^verbatim>\<open>cpu_freq\<close> is not in
  ascending order of \<^verbatim>\<open>freq\<close>: index 4 holds 320000000 and index 5 holds 160000000.
  A request above every entry therefore selects 160000000 with encoding 5, not the
  maximum.
\<close>

theorem cpu_freq_not_ascending:
  "cpu_freq \<noteq> [] \<and> ssp_freq \<noteq> [] \<and> sorted (map freq_table.freq ssp_freq)
   \<and> \<not> sorted (map freq_table.freq cpu_freq)
   \<and> freq_table.freq (cpu_freq ! 4) = 320000000
   \<and> freq_table.freq (cpu_freq ! 5) = 160000000
   \<and> get_freq cpu_freq (ARRAY_SIZE cpu_freq) 320000001 = Inr 5
   \<and> table_at cpu_freq 5
       = Inr \<lparr>freq_table.freq = 160000000, ticks_per_usec = 160, fabric = 160000000, enc = 5\<rparr>"
  by (simp add: get_freq_def get_freq_loop.simps cpu_freq_def ssp_freq_def ARRAY_SIZE_def
      table_at_def)

subsection \<open>Setting the frequency\<close>

lemma clk_at_emit: "clk_at (emit e s) clock = clk_at s clock"
  by (simp add: clk_at_def emit_def)

lemma clk_at_trace: "clk_at (s\<lparr>trace := t\<rparr>) clock = clk_at s clock"
  by (simp add: clk_at_def)

lemma initialised_clk_at:
  "initialised s \<Longrightarrow> known_clock clock \<Longrightarrow> \<exists>c. clk_at s clock = Inr c"
  by (auto simp: initialised_def known_clock_def clk_at_def NUM_CLOCKS_def CLK_CPU_def CLK_SSP_def
      split: option.splits)

lemma get_freq_cpu_freq:
  "\<exists>idx ent. get_freq cpu_freq (ARRAY_SIZE cpu_freq) hz = Inr idx \<and> table_at cpu_freq idx = Inr ent"
proof -
  have ne: "cpu_freq \<noteq> []" and len: "length cpu_freq < 2 ^ 31"
    by (simp_all add: cpu_freq_def)
  from get_freq_scan [OF ne len, of hz] obtain r
    where r: "get_freq cpu_freq (ARRAY_SIZE cpu_freq) hz = Inr r" and sc: "scan_result cpu_freq hz 0 r"
    by blast
  have "unat r < length cpu_freq"
    using ne sc by (rule scan_result_in_range)
  then have "table_at cpu_freq r = Inr (cpu_freq ! unat r)"
    by (simp add: table_at_def)
  with r show ?thesis by blast
qed

lemma clock_set_freq_cpu:
  assumes c: "clk_at s CLK_CPU = Inr c"
  shows "\<exists>idx ent. get_freq cpu_freq (ARRAY_SIZE cpu_freq) hz = Inr idx
      \<and> table_at cpu_freq idx = Inr ent
      \<and> clock_set_freq CLK_CPU hz s =
          Inr (clk_data.freq c,
               s\<lparr>trace := trace s @
                 [Spin_lock_irq CLK_CPU,
                  Notifier_event NOTIFIER_ID_CPU_FREQ CLOCK_NOTIFY_PRE
                    \<lparr>old_freq = clk_data.freq c,
                     old_ticks_per_usec = clk_data.ticks_per_usec c,
                     freq = freq_table.freq ent\<rparr>,
                  Io_reg_update_bits_SHIM_CSR_DCS (enc ent),
                  Notifier_event NOTIFIER_ID_CPU_FREQ CLOCK_NOTIFY_POST
                    \<lparr>old_freq = clk_data.freq c,
                     old_ticks_per_usec = clk_data.ticks_per_usec c,
                     freq = freq_table.freq ent\<rparr>,
                  Spin_unlock_irq CLK_CPU]\<rparr>)"
proof -
  from get_freq_cpu_freq [of hz] obtain idx ent
    where g: "get_freq cpu_freq (ARRAY_SIZE cpu_freq) hz = Inr idx"
      and t: "table_at cpu_freq idx = Inr ent"
    by blast
  have "clock_set_freq CLK_CPU hz s =
          Inr (clk_data.freq c,
               s\<lparr>trace := trace s @
                 [Spin_lock_irq CLK_CPU,
                  Notifier_event NOTIFIER_ID_CPU_FREQ CLOCK_NOTIFY_PRE
                    \<lparr>old_freq = clk_data.freq c,
                     old_ticks_per_usec = clk_data.ticks_per_usec c,
                     freq = freq_table.freq ent\<rparr>,
                  Io_reg_update_bits_SHIM_CSR_DCS (enc ent),
                  Notifier_event NOTIFIER_ID_CPU_FREQ CLOCK_NOTIFY_POST
                    \<lparr>old_freq = clk_data.freq c,
                     old_ticks_per_usec = clk_data.ticks_per_usec c,
                     freq = freq_table.freq ent\<rparr>,
                  Spin_unlock_irq CLK_CPU]\<rparr>)"
    by (simp add: clock_set_freq_def set_cpu_freq_def c g t Let_def clk_at_emit emit_def clk_at_trace)
  with g t show ?thesis by blast
qed

lemma clock_set_freq_other:
  assumes "clock \<noteq> CLK_CPU" and c: "clk_at s clock = Inr c"
  shows "clock_set_freq clock hz s =
          Inr (clk_data.freq c,
               s\<lparr>trace := trace s @ [Spin_lock_irq clock, Spin_unlock_irq clock]\<rparr>)"
  using assms
  by (simp add: clock_set_freq_def c Let_def clk_at_emit emit_def clk_at_trace)

lemma clock_set_freq_stored:
  assumes "clk_at s clock = Inr c"
  shows "\<exists>s'. clock_set_freq clock hz s = Inr (clk_data.freq c, s')
            \<and> clk_pdata s' = clk_pdata s"
proof (cases "clock = CLK_CPU")
  case True
  with clock_set_freq_cpu [of s c hz] assms show ?thesis by auto
next
  case False
  with clock_set_freq_other [of clock s c hz] assms show ?thesis by auto
qed

text \<open>
  C4. In an initialised state, \<^verbatim>\<open>clock_set_freq(CLK_CPU, hz)\<close> makes exactly these external
  calls, in this order: the lock is taken; the pre-change notification is sent, carrying
  the stored (old) frequency, the stored (old) ticks per microsecond and the frequency of
  the table entry \<^verbatim>\<open>get_freq\<close> selected; the register is updated with that entry's
  encoding; the post-change notification is sent with the same payload; the lock is
  released.
\<close>

theorem cpu_notifications_straddle_register_update:
  assumes "initialised s"
  shows "\<exists>c idx ent r s'. clk_at s CLK_CPU = Inr c
      \<and> get_freq cpu_freq (ARRAY_SIZE cpu_freq) hz = Inr idx
      \<and> table_at cpu_freq idx = Inr ent
      \<and> clock_set_freq CLK_CPU hz s = Inr (r, s')
      \<and> trace s' = trace s @
           [Spin_lock_irq CLK_CPU,
            Notifier_event NOTIFIER_ID_CPU_FREQ CLOCK_NOTIFY_PRE
              \<lparr>old_freq = clk_data.freq c,
               old_ticks_per_usec = clk_data.ticks_per_usec c,
               freq = freq_table.freq ent\<rparr>,
            Io_reg_update_bits_SHIM_CSR_DCS (enc ent),
            Notifier_event NOTIFIER_ID_CPU_FREQ CLOCK_NOTIFY_POST
              \<lparr>old_freq = clk_data.freq c,
               old_ticks_per_usec = clk_data.ticks_per_usec c,
               freq = freq_table.freq ent\<rparr>,
            Spin_unlock_irq CLK_CPU]"
proof -
  have "known_clock CLK_CPU"
    by (simp add: known_clock_def)
  with initialised_clk_at [OF assms] obtain c where c: "clk_at s CLK_CPU = Inr c"
    by blast
  from clock_set_freq_cpu [OF c, of hz] obtain idx ent
    where "get_freq cpu_freq (ARRAY_SIZE cpu_freq) hz = Inr idx"
      and "table_at cpu_freq idx = Inr ent"
      and "clock_set_freq CLK_CPU hz s =
          Inr (clk_data.freq c,
               s\<lparr>trace := trace s @
                 [Spin_lock_irq CLK_CPU,
                  Notifier_event NOTIFIER_ID_CPU_FREQ CLOCK_NOTIFY_PRE
                    \<lparr>old_freq = clk_data.freq c,
                     old_ticks_per_usec = clk_data.ticks_per_usec c,
                     freq = freq_table.freq ent\<rparr>,
                  Io_reg_update_bits_SHIM_CSR_DCS (enc ent),
                  Notifier_event NOTIFIER_ID_CPU_FREQ CLOCK_NOTIFY_POST
                    \<lparr>old_freq = clk_data.freq c,
                     old_ticks_per_usec = clk_data.ticks_per_usec c,
                     freq = freq_table.freq ent\<rparr>,
                  Spin_unlock_irq CLK_CPU]\<rparr>)"
    by blast
  with c show ?thesis by force
qed

theorem cpu_notifications_straddle_register_update_witness:
  "initialised (init_platform_clocks boot)
   \<and> (\<exists>r s'. clock_set_freq CLK_CPU 100000000 (init_platform_clocks boot) = Inr (r, s')
        \<and> trace s' =
           [Spinlock_init 0, Spinlock_init 1,
            Spin_lock_irq CLK_CPU,
            Notifier_event NOTIFIER_ID_CPU_FREQ CLOCK_NOTIFY_PRE
              \<lparr>old_freq = 320000000, old_ticks_per_usec = 320, freq = 160000000\<rparr>,
            Io_reg_update_bits_SHIM_CSR_DCS 1,
            Notifier_event NOTIFIER_ID_CPU_FREQ CLOCK_NOTIFY_POST
              \<lparr>old_freq = 320000000, old_ticks_per_usec = 320, freq = 160000000\<rparr>,
            Spin_unlock_irq CLK_CPU])"
proof -
  have h: "initialised (init_platform_clocks boot)"
    by (simp add: initialised_def init_clk_pdata NUM_CLOCKS_def)
  have g: "get_freq cpu_freq (ARRAY_SIZE cpu_freq) 100000000 = Inr 2"
    by (simp add: get_freq_def get_freq_loop.simps cpu_freq_def ARRAY_SIZE_def)
  have t: "table_at cpu_freq 2
      = Inr \<lparr>freq_table.freq = 160000000, ticks_per_usec = 160, fabric = 80000000, enc = 1\<rparr>"
    by (simp add: table_at_def cpu_freq_def)
  from cpu_notifications_straddle_register_update [OF h, of 100000000] h
  show ?thesis
    by (auto simp: g t clk_at_init trace_init boot_def)
qed

text \<open>
  C1. \<^verbatim>\<open>clock_set_freq\<close> does not return the nearest supported frequency. After
  \<^verbatim>\<open>init_platform_clocks\<close>, the call \<^verbatim>\<open>clock_set_freq(CLK_CPU, 32000000)\<close> selects entry 0
  of \<^verbatim>\<open>cpu_freq\<close> (32000000, encoding 6), announces 32000000 as the new frequency in both
  notifications and programs the register with it, but stores neither the new frequency
  nor the new ticks per microsecond: the clock block still holds 320000000, and that
  stale value is what the call returns. The smallest table entry \<open>\<ge>\<close> 32000000 is
  32000000.
\<close>

theorem clock_set_freq_returns_stale_freq:
  "clock_set_freq CLK_CPU 32000000 (init_platform_clocks boot) =
     Inr (320000000,
          \<lparr>clk_pdata = Some \<lparr>clk = [\<lparr>clk_data.freq = 320000000, ticks_per_usec = 320\<rparr>,
                                     \<lparr>clk_data.freq = 24000000, ticks_per_usec = 24\<rparr>]\<rparr>,
           trace = [Spinlock_init 0, Spinlock_init 1,
                    Spin_lock_irq 0,
                    Notifier_event NOTIFIER_ID_CPU_FREQ CLOCK_NOTIFY_PRE
                      \<lparr>old_freq = 320000000, old_ticks_per_usec = 320, freq = 32000000\<rparr>,
                    Io_reg_update_bits_SHIM_CSR_DCS 6,
                    Notifier_event NOTIFIER_ID_CPU_FREQ CLOCK_NOTIFY_POST
                      \<lparr>old_freq = 320000000, old_ticks_per_usec = 320, freq = 32000000\<rparr>,
                    Spin_unlock_irq 0]\<rparr>)
   \<and> get_freq cpu_freq (ARRAY_SIZE cpu_freq) 32000000 = Inr 0
   \<and> table_at cpu_freq 0
       = Inr \<lparr>freq_table.freq = 32000000, ticks_per_usec = 80, fabric = 32000000, enc = 6\<rparr>
   \<and> spec_nearest (map freq_table.freq cpu_freq) 32000000 = 32000000"
  by (simp add: init_boot clock_set_freq_def set_cpu_freq_def clk_at_def emit_def Let_def
      get_freq_def get_freq_loop.simps cpu_freq_def ARRAY_SIZE_def table_at_def CLK_CPU_def
      spec_nearest_def)

text \<open>
  C7. In an initialised state and for both domains, two calls of \<^verbatim>\<open>clock_set_freq\<close> in
  succession with the same \<open>hz\<close> return the same value, and for \<^verbatim>\<open>CLK_CPU\<close> each of the
  two calls sends its own pre-change and post-change notification around its own
  register update: nothing is suppressed on the second call.
\<close>

theorem clock_set_freq_twice:
  assumes "initialised s" and "known_clock clock"
  shows "\<exists>r s1 s2. clock_set_freq clock hz s = Inr (r, s1)
      \<and> clock_set_freq clock hz s1 = Inr (r, s2)
      \<and> (clock = CLK_CPU \<longrightarrow>
           (\<exists>nd e. trace s1 = trace s @
                     [Spin_lock_irq CLK_CPU,
                      Notifier_event NOTIFIER_ID_CPU_FREQ CLOCK_NOTIFY_PRE nd,
                      Io_reg_update_bits_SHIM_CSR_DCS e,
                      Notifier_event NOTIFIER_ID_CPU_FREQ CLOCK_NOTIFY_POST nd,
                      Spin_unlock_irq CLK_CPU]
                 \<and> trace s2 = trace s1 @
                     [Spin_lock_irq CLK_CPU,
                      Notifier_event NOTIFIER_ID_CPU_FREQ CLOCK_NOTIFY_PRE nd,
                      Io_reg_update_bits_SHIM_CSR_DCS e,
                      Notifier_event NOTIFIER_ID_CPU_FREQ CLOCK_NOTIFY_POST nd,
                      Spin_unlock_irq CLK_CPU]))"
proof -
  from initialised_clk_at [OF assms] obtain c where c: "clk_at s clock = Inr c"
    by blast
  show ?thesis
  proof (cases "clock = CLK_CPU")
    case False
    let ?s1 = "s\<lparr>trace := trace s @ [Spin_lock_irq clock, Spin_unlock_irq clock]\<rparr>"
    have one: "clock_set_freq clock hz s = Inr (clk_data.freq c, ?s1)"
      using False c by (rule clock_set_freq_other)
    have c1: "clk_at ?s1 clock = Inr c"
      using c by (simp add: clk_at_trace)
    have "\<exists>s2. clock_set_freq clock hz ?s1 = Inr (clk_data.freq c, s2)"
      using clock_set_freq_other [OF False c1] by blast
    with one False show ?thesis by blast
  next
    case True
    from clock_set_freq_cpu [of s c hz] c True obtain idx ent
      where g: "get_freq cpu_freq (ARRAY_SIZE cpu_freq) hz = Inr idx"
        and t: "table_at cpu_freq idx = Inr ent"
      by blast
    let ?nd = "\<lparr>old_freq = clk_data.freq c,
                old_ticks_per_usec = clk_data.ticks_per_usec c,
                freq = freq_table.freq ent\<rparr>"
    let ?ev = "[Spin_lock_irq CLK_CPU,
                Notifier_event NOTIFIER_ID_CPU_FREQ CLOCK_NOTIFY_PRE ?nd,
                Io_reg_update_bits_SHIM_CSR_DCS (enc ent),
                Notifier_event NOTIFIER_ID_CPU_FREQ CLOCK_NOTIFY_POST ?nd,
                Spin_unlock_irq CLK_CPU]"
    let ?s1 = "s\<lparr>trace := trace s @ ?ev\<rparr>"
    let ?s2 = "?s1\<lparr>trace := trace ?s1 @ ?ev\<rparr>"
    have c0: "clk_at s CLK_CPU = Inr c"
      using c True by simp
    have c1: "clk_at ?s1 CLK_CPU = Inr c"
      using c0 by (simp add: clk_at_trace)
    have one: "clock_set_freq CLK_CPU hz s = Inr (clk_data.freq c, ?s1)"
      using clock_set_freq_cpu [OF c0, of hz] g t by auto
    have two: "clock_set_freq CLK_CPU hz ?s1 = Inr (clk_data.freq c, ?s2)"
      using clock_set_freq_cpu [OF c1, of hz] g t by auto
    have "trace ?s1 = trace s @ ?ev" and "trace ?s2 = trace ?s1 @ ?ev"
      by simp_all
    with one two True show ?thesis by blast
  qed
qed

theorem clock_set_freq_twice_witness:
  "initialised (init_platform_clocks boot) \<and> known_clock CLK_CPU
   \<and> (\<exists>s1 s2. clock_set_freq CLK_CPU 80000000 (init_platform_clocks boot) = Inr (320000000, s1)
        \<and> clock_set_freq CLK_CPU 80000000 s1 = Inr (320000000, s2)
        \<and> length (trace s2) = length (trace s1) + 5)"
proof -
  have h1: "initialised (init_platform_clocks boot)"
    by (simp add: initialised_def init_clk_pdata NUM_CLOCKS_def)
  have h2: "known_clock CLK_CPU"
    by (simp add: known_clock_def)
  from clock_set_freq_twice [OF h1 h2, of 80000000] obtain r s1 s2
    where a: "clock_set_freq CLK_CPU 80000000 (init_platform_clocks boot) = Inr (r, s1)"
      and b: "clock_set_freq CLK_CPU 80000000 s1 = Inr (r, s2)"
      and c: "length (trace s2) = length (trace s1) + 5"
    by auto
  from clock_set_freq_stored [OF clk_at_init(1) [of boot], of 80000000] a
  have "r = 320000000"
    by auto
  with a b c h1 h2 show ?thesis by blast
qed

text \<open>
  C8. \<^verbatim>\<open>clock_set_freq\<close> is not a silent no-op for an unknown identifier. Its switch has
  a \<^verbatim>\<open>default\<close> branch that only breaks, but \<^verbatim>\<open>clk_pdata->clk[clock]\<close> is read before the
  switch, its lock is taken and released around it, and it is read again for the
  result: with the identifier 2 or -1 each of these is outside the
  \<^verbatim>\<open>NUM_CLOCKS\<close>-element array. \<^verbatim>\<open>clock_time_elapsed\<close>, by contrast, returns 0 from its
  \<^verbatim>\<open>default\<close> branch before it touches the block. For \<^verbatim>\<open>CLK_SSP\<close>, the domain without
  hardware control, the call is the no-op described: it returns the stored 24000000,
  and only takes and releases the lock.
\<close>

theorem clock_set_freq_unknown_clock_out_of_bounds:
  "clock_set_freq 2 32000000 (init_platform_clocks boot) = Inl Out_of_bounds
   \<and> clock_set_freq (- 1) 32000000 (init_platform_clocks boot) = Inl Out_of_bounds
   \<and> clock_time_elapsed \<lparr>arch_timer_get_system = 5, platform_timer_get = 7\<rparr> 2 3
         (init_platform_clocks boot) = (None, Inr 0)
   \<and> clock_set_freq CLK_SSP 48000000 (init_platform_clocks boot) =
       Inr (24000000,
            \<lparr>clk_pdata = Some \<lparr>clk = [\<lparr>clk_data.freq = 320000000, ticks_per_usec = 320\<rparr>,
                                       \<lparr>clk_data.freq = 24000000, ticks_per_usec = 24\<rparr>]\<rparr>,
             trace = [Spinlock_init 0, Spinlock_init 1,
                      Spin_lock_irq 1, Spin_unlock_irq 1]\<rparr>)"
  by (simp add: init_boot clock_set_freq_def clk_at_def emit_def Let_def
      clock_time_elapsed_def CLK_CPU_def CLK_SSP_def)

text \<open>
  C9. In an initialised state and for both domains, \<^verbatim>\<open>clock_set_freq\<close> leaves the clock
  block (every \<^verbatim>\<open>freq\<close> and \<^verbatim>\<open>ticks_per_usec\<close>) as it was, so \<^verbatim>\<open>clock_get_freq\<close> and
  \<^verbatim>\<open>clock_us_to_ticks\<close> return after the call what they returned before it.
\<close>

theorem clock_set_freq_keeps_state:
  assumes "initialised s" and "known_clock clock"
  shows "\<exists>r s' f t. clock_set_freq clock hz s = Inr (r, s')
      \<and> clk_pdata s' = clk_pdata s
      \<and> clock_get_freq clock s = Inr f \<and> clock_get_freq clock s' = Inr f
      \<and> clock_us_to_ticks clock us s = Inr t \<and> clock_us_to_ticks clock us s' = Inr t"
proof -
  from initialised_clk_at [OF assms] obtain c where c: "clk_at s clock = Inr c"
    by blast
  from clock_set_freq_stored [OF c, of hz] obtain s'
    where r: "clock_set_freq clock hz s = Inr (clk_data.freq c, s')"
      and p: "clk_pdata s' = clk_pdata s"
    by blast
  have c': "clk_at s' clock = Inr c"
    using c p by (simp add: clk_at_def)
  have "clock_get_freq clock s = Inr (clk_data.freq c)"
    and "clock_get_freq clock s' = Inr (clk_data.freq c)"
    and "clock_us_to_ticks clock us s = Inr (ucast (clk_data.ticks_per_usec c) * us)"
    and "clock_us_to_ticks clock us s' = Inr (ucast (clk_data.ticks_per_usec c) * us)"
    by (simp_all add: clock_get_freq_def clock_us_to_ticks_def c c')
  with r p show ?thesis by blast
qed

theorem clock_set_freq_keeps_state_witness:
  "initialised (init_platform_clocks boot) \<and> known_clock CLK_CPU
   \<and> (\<exists>r s'. clock_set_freq CLK_CPU 32000000 (init_platform_clocks boot) = Inr (r, s')
         \<and> clk_pdata s' = clk_pdata (init_platform_clocks boot)
         \<and> clock_get_freq CLK_CPU s' = Inr 320000000
         \<and> clock_us_to_ticks CLK_CPU 1000 s' = Inr 320000)"
proof -
  have h1: "initialised (init_platform_clocks boot)"
    by (simp add: initialised_def init_clk_pdata NUM_CLOCKS_def)
  have h2: "known_clock CLK_CPU"
    by (simp add: known_clock_def)
  have "clock_get_freq CLK_CPU (init_platform_clocks boot) = Inr 320000000"
    and "clock_us_to_ticks CLK_CPU 1000 (init_platform_clocks boot) = Inr 320000"
    by (simp_all add: clock_get_freq_def clock_us_to_ticks_def clk_at_init)
  with clock_set_freq_keeps_state [OF h1 h2, of 32000000 1000] h1 h2
  show ?thesis by auto
qed

subsection \<open>Elapsed time\<close>

lemma unat_ucast_32_64: "unat (ucast (t :: u32) :: u64) = unat t"
proof -
  have "unat t < 2 ^ 32"
    using unsigned_less [of t, where 'a = nat] by simp
  then have "unat t < 2 ^ 64"
    by (rule less_le_trans) simp
  then show ?thesis
    by (simp add: unsigned_ucast_eq take_bit_nat_eq_self)
qed

lemma unat_wrapped_ticks:
  assumes "\<not> previous \<le> (current :: u64)"
  shows "unat (current + (ULONG_LONG_MAX - previous)) = unat current + (2 ^ 64 - 1 - unat previous)"
proof -
  have m: "unat ULONG_LONG_MAX = 2 ^ 64 - 1"
    by (simp add: ULONG_LONG_MAX_def)
  have "previous \<le> ULONG_LONG_MAX"
    by (simp add: ULONG_LONG_MAX_def word_le_nat_alt) (use unsigned_less [of previous, where 'a = nat] in simp)
  then have d: "unat (ULONG_LONG_MAX - previous) = 2 ^ 64 - 1 - unat previous"
    using m by (simp add: unat_sub)
  have lt: "unat current < unat previous"
    using assms by (simp add: word_le_nat_alt)
  have "unat previous < 2 ^ 64"
    using unsigned_less [of previous, where 'a = nat] by simp
  with lt have "unat current + unat (ULONG_LONG_MAX - previous) < 2 ^ LENGTH(64)"
    unfolding d by simp
  then have "unat (current + (ULONG_LONG_MAX - previous)) = unat current + unat (ULONG_LONG_MAX - previous)"
    by (simp only: unat_add_lem)
  with d show ?thesis by simp
qed

text \<open>
  C6. For \<^verbatim>\<open>CLK_CPU\<close> and \<^verbatim>\<open>CLK_SSP\<close>, with the domain's \<^verbatim>\<open>ticks_per_usec\<close> not zero,
  \<^verbatim>\<open>clock_time_elapsed\<close> stores the tick value it read through \<^verbatim>\<open>current\<close> and returns,
  as natural numbers and with truncating division,
  \<open>(current - previous) div ticks_per_usec\<close> when \<open>current \<ge> previous\<close> and
  \<open>(current + (2^64 - 1 - previous)) div ticks_per_usec\<close> when \<open>current < previous\<close>;
  neither the difference nor the sum wraps.
\<close>

theorem clock_time_elapsed_value:
  assumes "known_clock clock" and "clk_at s clock = Inr c"
    and "clk_data.ticks_per_usec c \<noteq> 0"
    and "current = (if clock = CLK_CPU then arch_timer_get_system hw else platform_timer_get hw)"
  shows "\<exists>ret. clock_time_elapsed hw clock previous s = (Some current, Inr ret)
     \<and> unat ret =
         (if unat previous \<le> unat current
          then (unat current - unat previous) div unat (clk_data.ticks_per_usec c)
          else (unat current + (2 ^ 64 - 1 - unat previous))
                 div unat (clk_data.ticks_per_usec c))"
proof (cases "previous \<le> current")
  case True
  have "clock_time_elapsed hw clock previous s =
      (Some current, Inr ((current - previous) div ucast (clk_data.ticks_per_usec c)))"
    using assms True by (simp add: clock_time_elapsed_def Let_def known_clock_def)
  moreover have "unat ((current - previous) div ucast (clk_data.ticks_per_usec c))
      = (unat current - unat previous) div unat (clk_data.ticks_per_usec c)"
    using True by (simp add: unat_div unat_sub unat_ucast_32_64)
  moreover have "unat previous \<le> unat current"
    using True by (simp add: word_le_nat_alt)
  ultimately show ?thesis by simp
next
  case False
  have "clock_time_elapsed hw clock previous s =
      (Some current,
       Inr ((current + (ULONG_LONG_MAX - previous)) div ucast (clk_data.ticks_per_usec c)))"
    using assms False by (simp add: clock_time_elapsed_def Let_def known_clock_def)
  moreover have "unat ((current + (ULONG_LONG_MAX - previous)) div ucast (clk_data.ticks_per_usec c))
      = (unat current + (2 ^ 64 - 1 - unat previous)) div unat (clk_data.ticks_per_usec c)"
    using unat_wrapped_ticks [OF False] by (simp add: unat_div unat_ucast_32_64)
  moreover have "\<not> unat previous \<le> unat current"
    using False by (simp add: word_le_nat_alt)
  ultimately show ?thesis by simp
qed

theorem clock_time_elapsed_value_witness:
  "known_clock CLK_SSP
   \<and> clk_at (init_platform_clocks boot) CLK_SSP = Inr \<lparr>clk_data.freq = 24000000, ticks_per_usec = 24\<rparr>
   \<and> clk_data.ticks_per_usec \<lparr>clk_data.freq = 24000000, ticks_per_usec = 24\<rparr> \<noteq> 0
   \<and> (\<exists>ret. clock_time_elapsed \<lparr>arch_timer_get_system = 0, platform_timer_get = 5000\<rparr>
               CLK_SSP (- 1000) (init_platform_clocks boot) = (Some 5000, Inr ret)
          \<and> unat ret = 249)"
proof -
  have h1: "known_clock CLK_SSP"
    by (simp add: known_clock_def)
  have h2: "clk_at (init_platform_clocks boot) CLK_SSP
      = Inr \<lparr>clk_data.freq = 24000000, ticks_per_usec = 24\<rparr>"
    by (rule clk_at_init)
  have h3: "clk_data.ticks_per_usec \<lparr>clk_data.freq = 24000000, ticks_per_usec = 24\<rparr> \<noteq> 0"
    by simp
  have h4: "(5000 :: u64) = (if CLK_SSP = CLK_CPU
       then arch_timer_get_system \<lparr>arch_timer_get_system = 0, platform_timer_get = 5000\<rparr>
       else platform_timer_get \<lparr>arch_timer_get_system = 0, platform_timer_get = 5000\<rparr>)"
    by (simp add: CLK_SSP_def CLK_CPU_def)
  from clock_time_elapsed_value [OF h1 h2 h3 h4, of "- 1000"] h1 h2 h3
  show ?thesis by simp
qed

text \<open>
  C10. With a domain other than \<^verbatim>\<open>CLK_CPU\<close> and \<^verbatim>\<open>CLK_SSP\<close>, \<^verbatim>\<open>clock_time_elapsed\<close>
  returns 0 and stores nothing through \<^verbatim>\<open>current\<close>, in any state. For \<^verbatim>\<open>CLK_CPU\<close> it
  stores the value read from the system timer and for \<^verbatim>\<open>CLK_SSP\<close> the value read from
  the platform timer, in any state, whatever the division that follows yields.
\<close>

theorem clock_time_elapsed_unknown_clock:
  "(clock \<noteq> CLK_CPU \<and> clock \<noteq> CLK_SSP \<longrightarrow>
      clock_time_elapsed hw clock previous s = (None, Inr 0))
   \<and> fst (clock_time_elapsed hw CLK_CPU previous s) = Some (arch_timer_get_system hw)
   \<and> fst (clock_time_elapsed hw CLK_SSP previous s) = Some (platform_timer_get hw)"
  by (simp add: clock_time_elapsed_def Let_def CLK_CPU_def CLK_SSP_def)

theorem clock_time_elapsed_unknown_clock_witness:
  "2 \<noteq> CLK_CPU \<and> 2 \<noteq> CLK_SSP
   \<and> clock_time_elapsed \<lparr>arch_timer_get_system = 5, platform_timer_get = 7\<rparr> 2 3
        (init_platform_clocks boot) = (None, Inr 0)"
  using clock_time_elapsed_unknown_clock
    [of 2 "\<lparr>arch_timer_get_system = 5, platform_timer_get = 7\<rparr>" 3 "init_platform_clocks boot"]
  by (simp add: CLK_CPU_def CLK_SSP_def)

end
